theory Spec2Isabelle
  imports Complex_Main
begin

section \<open>JavaScript values and the runtime the code relies on\<close>

text \<open>
  The share handling code of the repository (\<^verbatim>\<open>utils/validation.js\<close>,
  \<^verbatim>\<open>RecoveryTabManager.parseShareContent\<close>, \<^verbatim>\<open>ShareManager.recoverMnemonic\<close>)
  reads three properties of a share object, \<^verbatim>\<open>threshold\<close>, \<^verbatim>\<open>index\<close> and
  \<^verbatim>\<open>data\<close>, tests them for truthiness, compares a counter with the threshold and
  stores values in \<^verbatim>\<open>Set\<close>s. The values a property can hold are the values
  \<^verbatim>\<open>JSON.parse\<close> produces, plus \<^verbatim>\<open>undefined\<close> for an absent property.

  A number is a finite rational (every double is one; \<open>+0\<close> and \<open>-0\<close> coincide, as they do
  for truthiness, comparison and \<^verbatim>\<open>Set\<close> membership), an infinity or NaN. A nested
  object or array is a reference \<open>JRef a\<close>, equal to itself only, as \<^verbatim>\<open>Set\<close>
  compares objects. Strings are lists of 8-bit characters. The values are those of JSON:
  symbols and big integers are outside the model.

  \<^verbatim>\<open>JSON.parse\<close> allocates new objects at every call. An address is therefore either
  \<open>Addr a\<close>, the address of an object the caller built (and, in the value that the
  runtime's \<^verbatim>\<open>JSON.parse\<close> returns, the number of an object within that value), or
  \<open>Fresh i a\<close>, the address of object \<open>a\<close> of the value parsed for element \<open>i\<close> of the list
  handed to \<^verbatim>\<open>validateShareCollection\<close>. Two parses never share an object.
\<close>

datatype jsnum = Fin rat | NaN | PosInf | NegInf

datatype address = Addr nat | Fresh nat nat

datatype jsval =
    JUndefined
  | JNull
  | JBool bool
  | JNum jsnum
  | JStr string
  | JRef address

datatype js_error =
    InvalidCharacterError
  | SyntaxError
  | TypeError
  | RangeError
  | Error string

text \<open>A share object, seen through the three property reads the code performs.\<close>

record share =
  threshold :: jsval
  index :: jsval
  data :: jsval

text \<open>
  The value \<^verbatim>\<open>JSON.parse\<close> returns: \<^verbatim>\<open>null\<close>, on which a property read throws a
  TypeError, or any other value, on which the three reads give a value each (all three
  \<^verbatim>\<open>undefined\<close> on a number, a string, a boolean or an array).
\<close>

datatype json = JsonNull | JsonVal share

text \<open>
  The built-in functions of the JavaScript runtime are not part of the repository; the
  model takes them as a parameter: \<^verbatim>\<open>atob\<close> and \<^verbatim>\<open>JSON.parse\<close>, which may throw,
  and the conversions ToNumber and ToString where they need the contents of a string, the
  digits of a number or the contents of an object. The conversion of an object calls its
  \<^verbatim>\<open>valueOf\<close> and \<^verbatim>\<open>toString\<close> and throws a TypeError when neither gives a
  primitive value, as for the object that \<^verbatim>\<open>JSON.parse\<close> builds from
  \<^verbatim>\<open>{"toString":1}\<close>, whose own property hides the inherited method.
\<close>

record runtime =
  atob :: "string \<Rightarrow> js_error + string"
  json_parse :: "string \<Rightarrow> js_error + json"
  string_to_number :: "string \<Rightarrow> jsnum"
  object_to_number :: "address \<Rightarrow> js_error + jsnum"
  number_to_string :: "jsnum \<Rightarrow> string"
  object_to_string :: "address \<Rightarrow> js_error + string"

text \<open>The objects of the value parsed for element \<open>i\<close>, as new objects.\<close>

fun fresh_val :: "nat \<Rightarrow> jsval \<Rightarrow> jsval" where
  "fresh_val i (JRef (Addr a)) = JRef (Fresh i a)"
| "fresh_val i v = v"

definition fresh_share :: "nat \<Rightarrow> share \<Rightarrow> share" where
  "fresh_share i sd =
     \<lparr> threshold = fresh_val i (threshold sd),
       index = fresh_val i (index sd),
       data = fresh_val i (data sd) \<rparr>"

fun truthy :: "jsval \<Rightarrow> bool" where
  "truthy JUndefined = False"
| "truthy JNull = False"
| "truthy (JBool b) = b"
| "truthy (JNum n) = (n \<noteq> Fin 0 \<and> n \<noteq> NaN)"
| "truthy (JStr s) = (s \<noteq> [])"
| "truthy (JRef a) = True"

fun js_to_number :: "runtime \<Rightarrow> jsval \<Rightarrow> js_error + jsnum" where
  "js_to_number rt JUndefined = Inr NaN"
| "js_to_number rt JNull = Inr (Fin 0)"
| "js_to_number rt (JBool b) = Inr (Fin (if b then 1 else 0))"
| "js_to_number rt (JNum n) = Inr n"
| "js_to_number rt (JStr s) = Inr (string_to_number rt s)"
| "js_to_number rt (JRef a) = object_to_number rt a"

fun js_to_string :: "runtime \<Rightarrow> jsval \<Rightarrow> js_error + string" where
  "js_to_string rt JUndefined = Inr ''undefined''"
| "js_to_string rt JNull = Inr ''null''"
| "js_to_string rt (JBool b) = Inr (if b then ''true'' else ''false'')"
| "js_to_string rt (JNum n) = Inr (number_to_string rt n)"
| "js_to_string rt (JStr s) = Inr s"
| "js_to_string rt (JRef a) = object_to_string rt a"

text \<open>
  \<^verbatim>\<open>n < v\<close> and \<^verbatim>\<open>n >= v\<close> for a counter \<open>n\<close>: the conversion of \<open>v\<close> may throw,
  and both are false when \<open>v\<close> converts to NaN.
\<close>

fun lt_num :: "nat \<Rightarrow> jsnum \<Rightarrow> bool" where
  "lt_num n (Fin r) = (of_nat n < r)"
| "lt_num n NaN = False"
| "lt_num n PosInf = True"
| "lt_num n NegInf = False"

fun ge_num :: "nat \<Rightarrow> jsnum \<Rightarrow> bool" where
  "ge_num n (Fin r) = (r \<le> of_nat n)"
| "ge_num n NaN = False"
| "ge_num n PosInf = False"
| "ge_num n NegInf = True"

definition js_lt :: "runtime \<Rightarrow> nat \<Rightarrow> jsval \<Rightarrow> js_error + bool" where
  "js_lt rt n v =
     (case js_to_number rt v of
        Inl e \<Rightarrow> Inl e
      | Inr x \<Rightarrow> Inr (lt_num n x))"

definition js_ge :: "runtime \<Rightarrow> nat \<Rightarrow> jsval \<Rightarrow> js_error + bool" where
  "js_ge rt n v =
     (case js_to_number rt v of
        Inl e \<Rightarrow> Inl e
      | Inr x \<Rightarrow> Inr (ge_num n x))"

text \<open>A \<^verbatim>\<open>Set\<close> keeps its members in insertion order, each once.\<close>

definition set_add :: "'a \<Rightarrow> 'a list \<Rightarrow> 'a list" where
  "set_add x s = (if x \<in> set s then s else s @ [x])"

text \<open>\<^verbatim>\<open>String.prototype.trim\<close>, on the white space an 8-bit character can be.\<close>

definition is_ws :: "char \<Rightarrow> bool" where
  "is_ws c = ((of_char c :: nat) \<in> {9, 10, 11, 12, 13, 32, 160})"

definition trim :: "string \<Rightarrow> string" where
  "trim s = rev (dropWhile is_ws (rev (dropWhile is_ws s)))"

definition starts_with :: "string \<Rightarrow> string \<Rightarrow> bool" where
  "starts_with s p = (take (length p) s = p)"

section \<open>utils/validation.js\<close>

text \<open>\<^verbatim>\<open>JSON.parse(atob(s))\<close>: either call may throw.\<close>

definition decode_share :: "runtime \<Rightarrow> string \<Rightarrow> js_error + json" where
  "decode_share rt s =
     (case atob rt s of
        Inl e \<Rightarrow> Inl e
      | Inr decoded \<Rightarrow> json_parse rt decoded)"

fun get_fields :: "json \<Rightarrow> js_error + share" where
  "get_fields JsonNull = Inl TypeError"
| "get_fields (JsonVal sh) = Inr sh"

text \<open>
  An element of the array handed to \<^verbatim>\<open>validateShareCollection\<close>: a string, an object
  (\<^verbatim>\<open>typeof x === 'object' && x !== null\<close>), or anything else (\<^verbatim>\<open>null\<close>,
  \<^verbatim>\<open>undefined\<close>, a number, a boolean).
\<close>

datatype share_input = InStr string | InObj share | InOther

text \<open>The body of the \<^verbatim>\<open>try\<close> block of \<^verbatim>\<open>isValidShareFormat\<close>.\<close>

definition hasRequiredFields :: "runtime \<Rightarrow> string \<Rightarrow> js_error + bool" where
  "hasRequiredFields rt shareString =
     (case decode_share rt (trim shareString) of
        Inl e \<Rightarrow> Inl e
      | Inr v \<Rightarrow>
          (case get_fields v of
             Inl e \<Rightarrow> Inl e
           | Inr shareData \<Rightarrow>
               Inr (truthy (threshold shareData) \<and> truthy (index shareData)
                    \<and> truthy (data shareData))))"

definition isValidShareFormat :: "runtime \<Rightarrow> share_input \<Rightarrow> js_error + bool" where
  "isValidShareFormat rt x =
     (case x of
        InStr shareString \<Rightarrow>
          if shareString = [] then Inr False
          else (case hasRequiredFields rt shareString of
                  Inl e \<Rightarrow> Inr False
                | Inr b \<Rightarrow> Inr b)
      | _ \<Rightarrow> Inr False)"

text \<open>
  \<^verbatim>\<open>parseShareData\<close>, called for element \<open>i\<close>: \<open>None\<close> is the \<^verbatim>\<open>null\<close> it returns for
  an invalid share. The value it returns is the one of its own call of
  \<^verbatim>\<open>JSON.parse\<close>; the value parsed in \<^verbatim>\<open>isValidShareFormat\<close> is only tested and
  dropped.
\<close>

definition parseShareData :: "runtime \<Rightarrow> nat \<Rightarrow> share_input \<Rightarrow> js_error + share option" where
  "parseShareData rt i x =
     (case isValidShareFormat rt x of
        Inl e \<Rightarrow> Inl e
      | Inr ok \<Rightarrow>
          if \<not> ok then Inr None
          else (case x of
                  InStr shareString \<Rightarrow>
                    (case decode_share rt (trim shareString) of
                       Inl e \<Rightarrow> Inr None
                     | Inr JsonNull \<Rightarrow> Inr None
                     | Inr (JsonVal parsed) \<Rightarrow> Inr (Some (fresh_share i parsed)))
                | _ \<Rightarrow> Inr None))"

datatype verror =
    InvalidShardFormat nat
  | NoValidShards
  | InsufficientShards jsval nat
  | DuplicateIndices

text \<open>The local variables of \<^verbatim>\<open>validateShareCollection\<close> that the loop updates.\<close>

record locals =
  errors :: "verror list"
  validCount :: nat
  shareIndices :: "jsval list"
  thresholdCandidates :: "jsval list"
  validShareData :: "share list"

definition init_locals :: locals where
  "init_locals = \<lparr> errors = [], validCount = 0, shareIndices = [],
                   thresholdCandidates = [], validShareData = [] \<rparr>"

text \<open>
  The test of line 118 on a non-null \<^verbatim>\<open>shareData\<close>:
  \<^verbatim>\<open>shareData.threshold && shareData.index !== undefined && shareData.data\<close>.
\<close>

definition valid_fields :: "share \<Rightarrow> bool" where
  "valid_fields sd = (truthy (threshold sd) \<and> index sd \<noteq> JUndefined \<and> truthy (data sd))"

definition push_valid :: "locals \<Rightarrow> share \<Rightarrow> locals" where
  "push_valid st sd =
     st\<lparr> validCount := validCount st + 1,
         validShareData := validShareData st @ [sd],
         thresholdCandidates :=
           (if truthy (threshold sd)
            then set_add (threshold sd) (thresholdCandidates st)
            else thresholdCandidates st),
         shareIndices := set_add (index sd) (shareIndices st) \<rparr>"

definition push_error :: "locals \<Rightarrow> nat \<Rightarrow> locals" where
  "push_error st i = st\<lparr> errors := errors st @ [InvalidShardFormat (i + 1)] \<rparr>"

text \<open>One call of the \<^verbatim>\<open>forEach\<close> callback, on element \<open>shareStr\<close> at position \<open>i\<close>.\<close>

definition callback :: "runtime \<Rightarrow> locals \<Rightarrow> share_input \<Rightarrow> nat \<Rightarrow> js_error + locals" where
  "callback rt st shareStr i =
     (case (case shareStr of
              InObj obj \<Rightarrow> Inr (Some obj)
            | _ \<Rightarrow> parseShareData rt i shareStr) of
        Inl e \<Rightarrow> Inl e
      | Inr None \<Rightarrow> Inr (push_error st i)
      | Inr (Some shareData) \<Rightarrow>
          if valid_fields shareData then Inr (push_valid st shareData)
          else Inr (push_error st i))"

fun forEach :: "runtime \<Rightarrow> locals \<Rightarrow> nat \<Rightarrow> share_input list \<Rightarrow> js_error + locals" where
  "forEach rt st i [] = Inr st"
| "forEach rt st i (x # xs) =
     (case callback rt st x i of
        Inl e \<Rightarrow> Inl e
      | Inr st' \<Rightarrow> forEach rt st' (Suc i) xs)"

text \<open>
  Lines 130 to 150. \<^verbatim>\<open>thresholdCounts\<close> is an object used as a dictionary: its keys
  are the candidates converted to strings. The properties that an object literal inherits
  (a candidate whose string is \<^verbatim>\<open>constructor\<close>, for instance) are not modelled.
\<close>

fun countCandidates ::
  "runtime \<Rightarrow> (string \<rightharpoonup> nat) \<Rightarrow> jsval list \<Rightarrow> js_error + (string \<rightharpoonup> nat)" where
  "countCandidates rt thresholdCounts [] = Inr thresholdCounts"
| "countCandidates rt thresholdCounts (t # ts) =
     (case js_to_string rt t of
        Inl e \<Rightarrow> Inl e
      | Inr key \<Rightarrow>
          countCandidates rt
            (thresholdCounts(key \<mapsto>
               (case thresholdCounts key of None \<Rightarrow> 0 | Some c \<Rightarrow> c) + 1)) ts)"

fun pickMostFrequent ::
  "runtime \<Rightarrow> (string \<rightharpoonup> nat) \<Rightarrow> nat \<Rightarrow> jsval \<Rightarrow> jsval list \<Rightarrow> js_error + jsval" where
  "pickMostFrequent rt thresholdCounts maxCount thr [] = Inr thr"
| "pickMostFrequent rt thresholdCounts maxCount thr (t # ts) =
     (case js_to_string rt t of
        Inl e \<Rightarrow> Inl e
      | Inr key \<Rightarrow>
          (case thresholdCounts key of
             None \<Rightarrow> pickMostFrequent rt thresholdCounts maxCount thr ts
           | Some c \<Rightarrow>
               if c > maxCount then pickMostFrequent rt thresholdCounts c t ts
               else pickMostFrequent rt thresholdCounts maxCount thr ts))"

definition finalThreshold :: "runtime \<Rightarrow> locals \<Rightarrow> js_error + jsval" where
  "finalThreshold rt st =
     (if (case validShareData st of [] \<Rightarrow> False | first # _ \<Rightarrow> truthy (threshold first))
      then Inr (threshold (hd (validShareData st)))
      else if thresholdCandidates st \<noteq> []
      then (case countCandidates rt Map.empty (thresholdCandidates st) of
              Inl e \<Rightarrow> Inl e
            | Inr thresholdCounts \<Rightarrow>
                pickMostFrequent rt thresholdCounts 0 (JNum (Fin 0)) (thresholdCandidates st))
      else Inr (JNum (Fin 3)))"

record validation =
  isValid :: bool
  res_validCount :: nat
  res_threshold :: jsval
  res_errors :: "verror list"
  res_shareIndices :: "jsval list"

text \<open>
  Lines 152 to 157: the errors after the test of the count. The comparison is evaluated
  only when the count is not 0, and the message of the insufficient-shares error converts
  the threshold to a string.
\<close>

definition checkCount :: "runtime \<Rightarrow> locals \<Rightarrow> jsval \<Rightarrow> js_error + verror list" where
  "checkCount rt st thr =
     (if validCount st = 0 then Inr (errors st @ [NoValidShards])
      else (case js_lt rt (validCount st) thr of
              Inl e \<Rightarrow> Inl e
            | Inr below \<Rightarrow>
                if below
                then (case js_to_string rt thr of
                        Inl e \<Rightarrow> Inl e
                      | Inr shown \<Rightarrow> Inr (errors st @ [InsufficientShards thr (validCount st)]))
                else Inr (errors st)))"

text \<open>Lines 159 to 170. \<^verbatim>\<open>&&\<close> evaluates the comparison only when there is no error.\<close>

definition finish :: "runtime \<Rightarrow> locals \<Rightarrow> js_error + validation" where
  "finish rt st =
     (case finalThreshold rt st of
        Inl e \<Rightarrow> Inl e
      | Inr thr \<Rightarrow>
          (case checkCount rt st thr of
             Inl e \<Rightarrow> Inl e
           | Inr errors1 \<Rightarrow>
               (let errors2 =
                      (if length (shareIndices st) \<noteq> validCount st
                       then errors1 @ [DuplicateIndices]
                       else errors1)
                in case (if errors2 = [] then js_ge rt (validCount st) thr else Inr False) of
                     Inl e \<Rightarrow> Inl e
                   | Inr valid \<Rightarrow>
                       Inr \<lparr> isValid = valid,
                             res_validCount = validCount st,
                             res_threshold = thr,
                             res_errors = errors2,
                             res_shareIndices = shareIndices st \<rparr>)))"

definition validateShareCollection ::
  "runtime \<Rightarrow> share_input list \<Rightarrow> js_error + validation" where
  "validateShareCollection rt shareStrings =
     (case forEach rt init_locals 0 shareStrings of
        Inl e \<Rightarrow> Inl e
      | Inr st \<Rightarrow> finish rt st)"

section \<open>RecoveryTabManager.parseShareContent\<close>

text \<open>
  The value \<^verbatim>\<open>parseShareContent\<close> returns: the tagged object
  \<^verbatim>\<open>{ encrypted: true, content }\<close> or the decoded share object.
\<close>

datatype share_content = Encrypted string | ShareData share

definition PGP_MARKER :: string where
  "PGP_MARKER = ''-----BEGIN PGP MESSAGE-----''"

text \<open>
  The statements of a \<^verbatim>\<open>try\<close> block of \<^verbatim>\<open>parseShareContent\<close>, which are the same
  for the whole trimmed content and for one line: the armor test, then the decoding.
  \<open>Inr None\<close> is falling out of the block without a \<^verbatim>\<open>return\<close>.
\<close>

definition tryShare :: "runtime \<Rightarrow> string \<Rightarrow> js_error + share_content option" where
  "tryShare rt s =
     (if starts_with s PGP_MARKER then Inr (Some (Encrypted s))
      else (case decode_share rt s of
              Inl e \<Rightarrow> Inl e
            | Inr v \<Rightarrow>
                (case get_fields v of
                   Inl e \<Rightarrow> Inl e
                 | Inr shareData \<Rightarrow>
                     if valid_fields shareData then Inr (Some (ShareData shareData))
                     else Inr None)))"

text \<open>\<^verbatim>\<open>content.split('\n')\<close>: the pieces between line feeds, at least one.\<close>

fun split_nl :: "string \<Rightarrow> string list" where
  "split_nl [] = [[]]"
| "split_nl (c # cs) =
     (if c = CHR 0x0A then [] # split_nl cs
      else (case split_nl cs of
              [] \<Rightarrow> [[c]]
            | l # ls \<Rightarrow> (c # l) # ls))"

definition content_lines :: "string \<Rightarrow> string list" where
  "content_lines content = filter (\<lambda>line. length line > 0) (map trim (split_nl content))"

fun scan_lines :: "runtime \<Rightarrow> string list \<Rightarrow> share_content option" where
  "scan_lines rt [] = None"
| "scan_lines rt (line # lines) =
     (case tryShare rt line of
        Inr (Some r) \<Rightarrow> Some r
      | _ \<Rightarrow> scan_lines rt lines)"

definition parseShareContent_body :: "runtime \<Rightarrow> string \<Rightarrow> js_error + share_content" where
  "parseShareContent_body rt content =
     (case tryShare rt (trim content) of
        Inr (Some r) \<Rightarrow> Inr r
      | _ \<Rightarrow>
          (case scan_lines rt (content_lines content) of
             Some r \<Rightarrow> Inr r
           | None \<Rightarrow> Inr (Encrypted (trim content))))"

definition parseShareContent :: "runtime \<Rightarrow> string \<Rightarrow> share_content" where
  "parseShareContent rt content =
     (case parseShareContent_body rt content of
        Inl e \<Rightarrow> Encrypted (trim content)
      | Inr r \<Rightarrow> r)"

section \<open>ShareManager.recoverMnemonicWithShares: the classification of a string\<close>

text \<open>
  The body of the classification loop of \<^verbatim>\<open>recoverMnemonicWithShares\<close> for an element
  that is a string: what it pushes to \<^verbatim>\<open>validShareData\<close>, if anything. Here the test
  on the decoded share requires a truthy index.
\<close>

definition classifyString_body :: "runtime \<Rightarrow> string \<Rightarrow> js_error + share_content option" where
  "classifyString_body rt share =
     (if starts_with share PGP_MARKER then Inr (Some (Encrypted share))
      else (case decode_share rt share of
              Inl e \<Rightarrow> Inl e
            | Inr v \<Rightarrow>
                (case get_fields v of
                   Inl e \<Rightarrow> Inl e
                 | Inr shareData \<Rightarrow>
                     if truthy (threshold shareData) \<and> truthy (index shareData)
                        \<and> truthy (data shareData)
                     then Inr (Some (ShareData shareData))
                     else Inr None)))"

definition classifyString :: "runtime \<Rightarrow> string \<Rightarrow> share_content option" where
  "classifyString rt share =
     (case classifyString_body rt share of
        Inl e \<Rightarrow> Some (Encrypted share)
      | Inr pushed \<Rightarrow> pushed)"

section \<open>ShareManager.recoverMnemonic: from the collected shares to the combine call\<close>

text \<open>
  \<^verbatim>\<open>recoverMnemonic\<close> first collects \<^verbatim>\<open>validShareData\<close> (parsing lines, asking for
  a password, decrypting); the model starts from that list (\<open>collected\<close> below), at
  \<^verbatim>\<open>if (validShareData.length === 0)\<close>. The combine primitive of the imported library
  is a parameter; the model returns the arguments of the calls made to it, in order, with
  the outcome. Every exception between these statements is caught by the \<^verbatim>\<open>try\<close> block
  that encloses them and becomes the error shown to the user.
\<close>

datatype combine_arg = StringShares "string list" | ByteShares "nat list list"

datatype recover_error = NoValidShares | InsufficientShares jsval nat | Thrown js_error

text \<open>
  Truncation of a rational towards zero, and \<^verbatim>\<open>xs.slice(0, v)\<close>: an end that is
  \<^verbatim>\<open>undefined\<close> is the length; any other end is converted to an integer (NaN to 0), a
  negative one counts from the end of the list, and the result is clamped to the list.
\<close>

definition trunc :: "rat \<Rightarrow> int" where
  "trunc r = (if r < 0 then \<lceil>r\<rceil> else \<lfloor>r\<rfloor>)"

fun slice_end :: "'a list \<Rightarrow> jsnum \<Rightarrow> 'a list" where
  "slice_end xs NaN = []"
| "slice_end xs PosInf = xs"
| "slice_end xs NegInf = []"
| "slice_end xs (Fin r) =
     (let k = trunc r
      in if k < 0 then take (nat (max (int (length xs) + k) 0)) xs
         else take (nat (min k (int (length xs)))) xs)"

definition slice0 :: "runtime \<Rightarrow> 'a list \<Rightarrow> jsval \<Rightarrow> js_error + 'a list" where
  "slice0 rt xs v =
     (if v = JUndefined then Inr xs
      else (case js_to_number rt v of
              Inl e \<Rightarrow> Inl e
            | Inr x \<Rightarrow> Inr (slice_end xs x)))"

text \<open>\<^verbatim>\<open>Array.prototype.map\<close> with a callback that may throw.\<close>

fun map_throw :: "('a \<Rightarrow> 'e + 'b) \<Rightarrow> 'a list \<Rightarrow> 'e + 'b list" where
  "map_throw f [] = Inr []"
| "map_throw f (x # xs) =
     (case f x of
        Inl e \<Rightarrow> Inl e
      | Inr y \<Rightarrow> (case map_throw f xs of Inl e \<Rightarrow> Inl e | Inr ys \<Rightarrow> Inr (y # ys)))"

definition payloadStrings :: "runtime \<Rightarrow> share list \<Rightarrow> js_error + string list" where
  "payloadStrings rt shares =
     map_throw (\<lambda>d. case js_to_string rt (data d) of
                           Inl e \<Rightarrow> Inl e
                         | Inr s \<Rightarrow> atob rt s) shares"

text \<open>\<^verbatim>\<open>bytes[i] = bin.charCodeAt(i)\<close> into a \<^verbatim>\<open>Uint8Array\<close>.\<close>

definition toBytes :: "string \<Rightarrow> nat list" where
  "toBytes bin = map (\<lambda>c. of_char c mod 256) bin"

text \<open>
  The version of the unnamed source file (lines 465 to 480): strings first, bytes in the
  \<^verbatim>\<open>catch\<close> block.
\<close>

definition combineWithFallback ::
  "(combine_arg \<Rightarrow> js_error + 'r) \<Rightarrow> string list \<Rightarrow> combine_arg list \<times> (js_error + 'r)" where
  "combineWithFallback combine sharePayloadStrings =
     (case combine (StringShares sharePayloadStrings) of
        Inr combined \<Rightarrow> ([StringShares sharePayloadStrings], Inr combined)
      | Inl _ \<Rightarrow>
          ([StringShares sharePayloadStrings, ByteShares (map toBytes sharePayloadStrings)],
           combine (ByteShares (map toBytes sharePayloadStrings))))"

text \<open>
  The statements from the test of \<^verbatim>\<open>validShareData.length\<close> to the decoded payloads,
  which the versions share: the error thrown, or the payload strings of the selection.
\<close>

definition selectPayloads :: "runtime \<Rightarrow> share list \<Rightarrow> recover_error + string list" where
  "selectPayloads rt collected =
     (case collected of
        [] \<Rightarrow> Inl NoValidShares
      | first # _ \<Rightarrow>
          (case js_lt rt (length collected) (threshold first) of
             Inl e \<Rightarrow> Inl (Thrown e)
           | Inr below \<Rightarrow>
               if below then Inl (InsufficientShares (threshold first) (length collected))
               else (case slice0 rt collected (threshold first) of
                       Inl e \<Rightarrow> Inl (Thrown e)
                     | Inr selection \<Rightarrow>
                         (case payloadStrings rt selection of
                            Inl e \<Rightarrow> Inl (Thrown e)
                          | Inr strs \<Rightarrow> Inr strs))))"

definition recoverMnemonic ::
  "runtime \<Rightarrow> (combine_arg \<Rightarrow> js_error + 'r) \<Rightarrow> share list
     \<Rightarrow> combine_arg list \<times> (recover_error + 'r)" where
  "recoverMnemonic rt combine collected =
     (case selectPayloads rt collected of
        Inl err \<Rightarrow> ([], Inl err)
      | Inr sharePayloadStrings \<Rightarrow>
          (case combineWithFallback combine sharePayloadStrings of
             (calls, Inl e) \<Rightarrow> (calls, Inl (Thrown e))
           | (calls, Inr combined) \<Rightarrow> (calls, Inr combined)))"

text \<open>
  The version of \<^verbatim>\<open>src/components/ShareManager.js\<close> (lines 534 to 551): the payloads
  are converted to bytes and combine is called once.
\<close>

definition recoverMnemonic_bytes ::
  "runtime \<Rightarrow> (combine_arg \<Rightarrow> js_error + 'r) \<Rightarrow> share list
     \<Rightarrow> combine_arg list \<times> (recover_error + 'r)" where
  "recoverMnemonic_bytes rt combine collected =
     (case selectPayloads rt collected of
        Inl err \<Rightarrow> ([], Inl err)
      | Inr binaryStrings \<Rightarrow>
          (case combine (ByteShares (map toBytes binaryStrings)) of
             Inl e \<Rightarrow> ([ByteShares (map toBytes binaryStrings)], Inl (Thrown e))
           | Inr recoveredBytes \<Rightarrow>
               ([ByteShares (map toBytes binaryStrings)], Inr recoveredBytes)))"

section \<open>Notions used to state the properties\<close>

text \<open>
  The validity test of the code, spelled out for one element of the list. An object passes
  with a truthy threshold, an index that is not \<^verbatim>\<open>undefined\<close> and truthy data. A
  string passes when it is not empty and its trimmed text decodes to a value with truthy
  threshold, truthy index and truthy data (\<^verbatim>\<open>isValidShareFormat\<close> requires a truthy
  index, so an index 0 passes in an object and not in a string). Nothing else passes.
  \<open>accepted_one\<close> gives the share of an element that passes.
\<close>

definition accepted_one :: "runtime \<Rightarrow> share_input \<Rightarrow> share option" where
  "accepted_one rt x =
     (case x of
        InObj obj \<Rightarrow>
          if truthy (threshold obj) \<and> index obj \<noteq> JUndefined \<and> truthy (data obj)
          then Some obj else None
      | InStr s \<Rightarrow>
          if s = [] then None
          else (case decode_share rt (trim s) of
                  Inr (JsonVal sd) \<Rightarrow>
                    if truthy (threshold sd) \<and> truthy (index sd) \<and> truthy (data sd)
                    then Some sd else None
                | _ \<Rightarrow> None)
      | InOther \<Rightarrow> None)"

text \<open>
  The accepted shares of a list, in order. The share decoded from the string at position
  \<open>i\<close> consists of objects of its own.
\<close>

definition accepted_at :: "runtime \<Rightarrow> nat \<Rightarrow> share_input \<Rightarrow> share option" where
  "accepted_at rt i x =
     (case x of
        InStr s \<Rightarrow> map_option (fresh_share i) (accepted_one rt x)
      | _ \<Rightarrow> accepted_one rt x)"

fun accepted_from :: "runtime \<Rightarrow> nat \<Rightarrow> share_input list \<Rightarrow> share list" where
  "accepted_from rt i [] = []"
| "accepted_from rt i (x # xs) =
     (case accepted_at rt i x of
        None \<Rightarrow> accepted_from rt (Suc i) xs
      | Some sd \<Rightarrow> sd # accepted_from rt (Suc i) xs)"

definition accepted :: "runtime \<Rightarrow> share_input list \<Rightarrow> share list" where
  "accepted rt xs = accepted_from rt 0 xs"

text \<open>A string decodes as a share with truthy threshold, defined index and truthy data.\<close>

definition decodes_valid :: "runtime \<Rightarrow> string \<Rightarrow> bool" where
  "decodes_valid rt s =
     (case decode_share rt s of
        Inr (JsonVal sd) \<Rightarrow> valid_fields sd
      | _ \<Rightarrow> False)"

text \<open>
  The selection the specification describes for reconstruction, written from its words
  for comparison with the code: the first \<open>n\<close> distinct envelopes, sorted by index, the
  first occurrence winning on duplicates.
\<close>

fun dedup_by_index :: "share list \<Rightarrow> share list" where
  "dedup_by_index [] = []"
| "dedup_by_index (s # ss) = s # dedup_by_index (filter (\<lambda>t. index t \<noteq> index s) ss)"

definition index_key :: "share \<Rightarrow> rat" where
  "index_key s = (case index s of JNum (Fin r) \<Rightarrow> r | _ \<Rightarrow> 0)"

definition spec_selection :: "nat \<Rightarrow> share list \<Rightarrow> share list" where
  "spec_selection n envelopes = take n (sort_key index_key (dedup_by_index envelopes))"

section \<open>Sample values\<close>

text \<open>
  A runtime for the examples: \<^verbatim>\<open>atob\<close> decodes the three payloads used below and
  throws on every other string, as the real one does on each example string that reaches
  it (they hold characters outside the base64 alphabet, or have a length of 1 modulo 4).
  Of the conversions the examples use only the one that writes the numbers 1, 2 and 3.
\<close>

definition sample_atob :: "string \<Rightarrow> js_error + string" where
  "sample_atob s =
     (if s = ''QQ=='' then Inr ''A''
      else if s = ''Qg=='' then Inr ''B''
      else if s = ''Qw=='' then Inr ''C''
      else Inl InvalidCharacterError)"

definition sample_number_to_string :: "jsnum \<Rightarrow> string" where
  "sample_number_to_string n =
     (if n = Fin 1 then ''1''
      else if n = Fin 2 then ''2''
      else if n = Fin 3 then ''3''
      else ''NaN'')"

definition sample_runtime :: runtime where
  "sample_runtime =
     \<lparr> atob = sample_atob,
       json_parse = (\<lambda>s. Inl SyntaxError),
       string_to_number = (\<lambda>s. NaN),
       object_to_number = (\<lambda>a. Inr NaN),
       number_to_string = sample_number_to_string,
       object_to_string = (\<lambda>a. Inr ''[object Object]'') \<rparr>"

definition mk_share :: "rat \<Rightarrow> rat \<Rightarrow> string \<Rightarrow> share" where
  "mk_share t i d = \<lparr> threshold = JNum (Fin t), index = JNum (Fin i), data = JStr d \<rparr>"

definition no_threshold_share :: share where
  "no_threshold_share = \<lparr> threshold = JUndefined, index = JNum (Fin 1), data = JStr ''QQ=='' \<rparr>"

definition sample_combine :: "combine_arg \<Rightarrow> js_error + string" where
  "sample_combine a = Inr ''secret''"

definition range_error_combine :: "combine_arg \<Rightarrow> js_error + string" where
  "range_error_combine a =
     (case a of
        StringShares ss \<Rightarrow> Inl RangeError
      | ByteShares bs \<Rightarrow> Inr ''secret'')"

definition two_line_content :: string where
  "two_line_content = ''x'' @ [CHR 0x0A] @ ''-----BEGIN PGP MESSAGE-----''"

text \<open>A runtime in which every string decodes as a valid share.\<close>

definition accepting_runtime :: runtime where
  "accepting_runtime =
     \<lparr> atob = (\<lambda>s. Inr s),
       json_parse = (\<lambda>s. Inr (JsonVal (mk_share 2 1 ''QQ==''))),
       string_to_number = (\<lambda>s. NaN),
       object_to_number = (\<lambda>a. Inr NaN),
       number_to_string = sample_number_to_string,
       object_to_string = (\<lambda>a. Inr ''[object Object]'') \<rparr>"

text \<open>
  A line that decodes to a share whose threshold is an object that cannot be converted:
  the base64 encoding of \<^verbatim>\<open>{"threshold":{"toString":1},"index":1,"data":"x"}\<close>, and a
  runtime that decodes this line as the real one does.
\<close>

definition crafted_line :: string where
  "crafted_line = ''eyJ0aHJlc2hvbGQiOnsidG9TdHJpbmciOjF9LCJpbmRleCI6MSwiZGF0YSI6IngifQ==''"

definition crafted_json :: string where
  "crafted_json =
     [CHR 0x7B] @ [CHR 0x22] @ ''threshold'' @ [CHR 0x22] @ '':'' @ [CHR 0x7B] @ [CHR 0x22]
     @ ''toString'' @ [CHR 0x22] @ '':1'' @ [CHR 0x7D] @ '','' @ [CHR 0x22] @ ''index''
     @ [CHR 0x22] @ '':1,'' @ [CHR 0x22] @ ''data'' @ [CHR 0x22] @ '':'' @ [CHR 0x22] @ ''x''
     @ [CHR 0x22] @ [CHR 0x7D]"

definition crafted_share :: share where
  "crafted_share = \<lparr> threshold = JRef (Addr 0), index = JNum (Fin 1), data = JStr ''x'' \<rparr>"

definition crafted_runtime :: runtime where
  "crafted_runtime =
     \<lparr> atob = (\<lambda>s. if s = crafted_line then Inr crafted_json else Inl InvalidCharacterError),
       json_parse = (\<lambda>s. if s = crafted_json then Inr (JsonVal crafted_share) else Inl SyntaxError),
       string_to_number = (\<lambda>s. NaN),
       object_to_number = (\<lambda>a. Inl TypeError),
       number_to_string = sample_number_to_string,
       object_to_string = (\<lambda>a. Inl TypeError) \<rparr>"

text \<open>
  A line that decodes to a share whose index is an array, the base64 encoding of
  \<^verbatim>\<open>{"threshold":2,"index":[1],"data":"QQ=="}\<close>, with a runtime that decodes it.
\<close>

definition array_index_line :: string where
  "array_index_line = ''eyJ0aHJlc2hvbGQiOjIsImluZGV4IjpbMV0sImRhdGEiOiJRUT09In0=''"

definition array_index_json :: string where
  "array_index_json =
     [CHR 0x7B] @ [CHR 0x22] @ ''threshold'' @ [CHR 0x22] @ '':2,'' @ [CHR 0x22] @ ''index''
     @ [CHR 0x22] @ '':[1],'' @ [CHR 0x22] @ ''data'' @ [CHR 0x22] @ '':'' @ [CHR 0x22]
     @ ''QQ=='' @ [CHR 0x22] @ [CHR 0x7D]"

definition array_index_share :: share where
  "array_index_share =
     \<lparr> threshold = JNum (Fin 2), index = JRef (Addr 0), data = JStr ''QQ=='' \<rparr>"

definition array_index_runtime :: runtime where
  "array_index_runtime =
     \<lparr> atob = (\<lambda>s. if s = array_index_line then Inr array_index_json
                    else Inl InvalidCharacterError),
       json_parse = (\<lambda>s. if s = array_index_json then Inr (JsonVal array_index_share)
                          else Inl SyntaxError),
       string_to_number = (\<lambda>s. NaN),
       object_to_number = (\<lambda>a. Inr (Fin 1)),
       number_to_string = sample_number_to_string,
       object_to_string = (\<lambda>a. Inr ''1'') \<rparr>"

definition pasted_twice :: "share_input list" where
  "pasted_twice = [InStr array_index_line, InStr array_index_line]"

definition armored_content :: string where
  "armored_content = ''  -----BEGIN PGP MESSAGE-----'' @ [CHR 0x0A] @ ''abc '' @ [CHR 0x0A]"

definition duplicate_input :: "share_input list" where
  "duplicate_input = [InObj (mk_share 2 1 ''QQ==''), InObj (mk_share 2 1 ''Qg=='')]"

definition mixed_input :: "share_input list" where
  "mixed_input = [InObj (mk_share 1 1 ''QQ==''), InStr ''not base64!'']"

definition majority_envelopes :: "share list" where
  "majority_envelopes =
     [no_threshold_share, mk_share 2 2 ''QQ=='', mk_share 3 3 ''Qg=='', mk_share 3 4 ''Qw=='']"

definition majority_input :: "share_input list" where
  "majority_input = map InObj majority_envelopes"

definition complete_input :: "share_input list" where
  "complete_input = [InObj (mk_share 2 1 ''QQ==''), InObj (mk_share 2 2 ''Qg=='')]"


definition broken_input :: "share_input list" where
  "broken_input =
     [InStr ''not base64!'',
      InObj \<lparr> threshold = JNum (Fin 2), index = JNum (Fin 1), data = JUndefined \<rparr>,
      InOther]"

definition unsorted_shares :: "share list" where
  "unsorted_shares = [mk_share 2 2 ''Qg=='', mk_share 2 1 ''QQ=='']"

section \<open>Auxiliary lemmas\<close>

lemma truthy_fresh_val: "truthy (fresh_val i v) = truthy v"
  by (induction i v rule: fresh_val.induct) simp_all

lemma fresh_val_undefined: "fresh_val i v = JUndefined \<longleftrightarrow> v = JUndefined"
  by (induction i v rule: fresh_val.induct) simp_all

lemma valid_fields_fresh_share: "valid_fields (fresh_share i sd) = valid_fields sd"
  by (simp add: valid_fields_def fresh_share_def truthy_fresh_val fresh_val_undefined)

lemma truthy_defined: "truthy v \<Longrightarrow> v \<noteq> JUndefined"
  by auto

lemma parseShareData_total: "\<exists>r. parseShareData rt i x = Inr r"
  by (auto simp: parseShareData_def isValidShareFormat_def split: share_input.splits sum.splits json.splits)

text \<open>\<^verbatim>\<open>parseShareData\<close> returns the share of a string exactly when the test accepts it.\<close>

lemma parseShareData_string:
  "parseShareData rt i (InStr s) = Inr (map_option (fresh_share i) (accepted_one rt (InStr s)))"
  by (auto simp: parseShareData_def isValidShareFormat_def hasRequiredFields_def accepted_one_def
           split: sum.splits json.splits)

lemma parseShareData_other: "parseShareData rt i InOther = Inr None"
  by (simp add: parseShareData_def isValidShareFormat_def)

lemma accepted_one_valid: "accepted_one rt x = Some sd \<Longrightarrow> valid_fields sd"
  by (auto simp: accepted_one_def valid_fields_def split: share_input.splits sum.splits
        json.splits if_splits)

lemma accepted_at_valid: "accepted_at rt i x = Some sd \<Longrightarrow> valid_fields sd"
  by (cases x) (auto simp: accepted_at_def valid_fields_fresh_share dest: accepted_one_valid)

lemma accepted_at_None: "accepted_at rt i x = None \<longleftrightarrow> accepted_one rt x = None"
  by (cases x) (simp_all add: accepted_at_def)

lemma callback_cases:
  "callback rt st x i =
     (case accepted_at rt i x of
        Some sd \<Rightarrow> Inr (push_valid st sd)
      | None \<Rightarrow> Inr (push_error st i))"
proof (cases x)
  case (InStr s)
  show ?thesis
  proof (cases "accepted_one rt (InStr s)")
    case None
    then show ?thesis
      by (simp add: callback_def InStr parseShareData_string accepted_at_def)
  next
    case (Some sd)
    then have "valid_fields (fresh_share i sd)"
      using accepted_one_valid[of rt "InStr s" sd] by (simp add: valid_fields_fresh_share)
    with Some show ?thesis
      by (simp add: callback_def InStr parseShareData_string accepted_at_def)
  qed
next
  case (InObj obj)
  then show ?thesis
    by (simp add: callback_def accepted_at_def accepted_one_def valid_fields_def)
next
  case InOther
  then show ?thesis
    by (simp add: callback_def parseShareData_other accepted_at_def accepted_one_def)
qed

lemma accepted_from_valid: "sd \<in> set (accepted_from rt i xs) \<Longrightarrow> valid_fields sd"
  by (induction xs arbitrary: i) (auto dest: accepted_at_valid split: option.splits)

lemma accepted_valid: "sd \<in> set (accepted rt xs) \<Longrightarrow> valid_fields sd"
  unfolding accepted_def by (rule accepted_from_valid)

lemma length_accepted_from:
  "length (accepted_from rt i xs) = length (filter (\<lambda>x. accepted_one rt x \<noteq> None) xs)"
proof (induction xs arbitrary: i)
  case Nil
  then show ?case by simp
next
  case (Cons x xs)
  show ?case
  proof (cases "accepted_at rt i x")
    case None
    then have "accepted_one rt x = None" by (simp add: accepted_at_None)
    with None Cons show ?thesis by simp
  next
    case (Some sd)
    then have "accepted_one rt x \<noteq> None"
      using accepted_at_None[of rt i x] by simp
    with Some Cons show ?thesis by simp
  qed
qed

lemma forEach_total: "\<exists>st'. forEach rt st i xs = Inr st'"
  by (induction xs arbitrary: st i) (auto simp: callback_cases split: option.splits)

lemma forEach_validShareData:
  "forEach rt st i xs = Inr st' \<Longrightarrow>
   validShareData st' = validShareData st @ accepted_from rt i xs"
  by (induction xs arbitrary: st i)
     (auto simp: callback_cases push_valid_def push_error_def split: option.splits)

lemma forEach_validCount:
  "forEach rt st i xs = Inr st' \<Longrightarrow>
   validCount st' = validCount st + length (accepted_from rt i xs)"
  by (induction xs arbitrary: st i)
     (auto simp: callback_cases push_valid_def push_error_def split: option.splits)

lemma forEach_shareIndices:
  "forEach rt st i xs = Inr st' \<Longrightarrow>
   shareIndices st' = fold set_add (map index (accepted_from rt i xs)) (shareIndices st)"
  by (induction xs arbitrary: st i)
     (auto simp: callback_cases push_valid_def push_error_def split: option.splits)

lemma forEach_thresholdCandidates:
  "forEach rt st i xs = Inr st' \<Longrightarrow>
   thresholdCandidates st' =
     fold set_add (map threshold (accepted_from rt i xs)) (thresholdCandidates st)"
proof (induction xs arbitrary: st i)
  case Nil
  then show ?case by simp
next
  case (Cons x xs)
  show ?case
  proof (cases "accepted_at rt i x")
    case None
    with Cons show ?thesis
      by (simp add: callback_cases push_error_def)
  next
    case (Some sd)
    then have "truthy (threshold sd)"
      using accepted_at_valid[of rt i x sd] by (simp add: valid_fields_def)
    with Some Cons show ?thesis
      by (simp add: callback_cases push_valid_def)
  qed
qed

lemma forEach_errors:
  "forEach rt st i xs = Inr st' \<Longrightarrow>
   set (errors st') = set (errors st) \<union>
     {InvalidShardFormat (i + j + 1) | j. j < length xs \<and> accepted_one rt (xs ! j) = None}"
proof (induction xs arbitrary: st i)
  case Nil
  then show ?case by simp
next
  case (Cons x xs)
  let ?R = "\<lambda>i ys. {InvalidShardFormat (i + j + 1) | j. j < length ys \<and> accepted_one rt (ys ! j) = None}"
  have split: "?R i (x # xs) = (if accepted_one rt x = None then {InvalidShardFormat (i + 1)} else {}) \<union> ?R (Suc i) xs"
  proof (rule set_eqI)
    fix e
    show "e \<in> ?R i (x # xs) \<longleftrightarrow> e \<in> (if accepted_one rt x = None then {InvalidShardFormat (i + 1)} else {}) \<union> ?R (Suc i) xs"
    proof
      assume "e \<in> ?R i (x # xs)"
      then obtain j where j: "e = InvalidShardFormat (i + j + 1)" "j < length (x # xs)" "accepted_one rt ((x # xs) ! j) = None"
        by blast
      show "e \<in> (if accepted_one rt x = None then {InvalidShardFormat (i + 1)} else {}) \<union> ?R (Suc i) xs"
      proof (cases j)
        case 0
        with j show ?thesis by simp
      next
        case (Suc k)
        with j have "e = InvalidShardFormat (Suc i + k + 1)" "k < length xs" "accepted_one rt (xs ! k) = None"
          by simp_all
        then show ?thesis by blast
      qed
    next
      assume "e \<in> (if accepted_one rt x = None then {InvalidShardFormat (i + 1)} else {}) \<union> ?R (Suc i) xs"
      then consider "accepted_one rt x = None" "e = InvalidShardFormat (i + 1)" | "e \<in> ?R (Suc i) xs"
        by (auto split: if_splits)
      then show "e \<in> ?R i (x # xs)"
      proof cases
        case 1
        then have "e = InvalidShardFormat (i + 0 + 1) \<and> 0 < length (x # xs) \<and> accepted_one rt ((x # xs) ! 0) = None"
          by simp
        then show ?thesis by blast
      next
        case 2
        then obtain k where k: "e = InvalidShardFormat (Suc i + k + 1)" "k < length xs" "accepted_one rt (xs ! k) = None"
          by blast
        then have "e = InvalidShardFormat (i + Suc k + 1) \<and> Suc k < length (x # xs) \<and> accepted_one rt ((x # xs) ! Suc k) = None"
          by simp
        then show ?thesis by blast
      qed
    qed
  qed
  from Cons.prems obtain st1 where st1: "callback rt st x i = Inr st1" "forEach rt st1 (Suc i) xs = Inr st'"
    by (auto split: sum.splits)
  have e1: "set (errors st1) = set (errors st) \<union> (if accepted_one rt x = None then {InvalidShardFormat (i + 1)} else {})"
    using st1(1) accepted_at_None[of rt i x]
    by (auto simp: callback_cases push_valid_def push_error_def split: option.splits)
  from Cons.IH[OF st1(2)] e1 split show ?case by (simp add: Un_assoc)
qed

lemma set_fold_set_add: "set (fold set_add ys s) = set s \<union> set ys"
  by (induction ys arbitrary: s) (auto simp: set_add_def)

lemma distinct_fold_set_add: "distinct s \<Longrightarrow> distinct (fold set_add ys s)"
  by (induction ys arbitrary: s) (auto simp: set_add_def)

lemma length_fold_set_add: "length (fold set_add ys []) = card (set ys)"
proof -
  have "distinct (fold set_add ys [])" by (simp add: distinct_fold_set_add)
  then have "length (fold set_add ys []) = card (set (fold set_add ys []))"
    by (simp add: distinct_card)
  then show ?thesis by (simp add: set_fold_set_add)
qed


lemma remdups_skip: "y \<in> set zs \<Longrightarrow> remdups (xs @ y # zs) = remdups (xs @ zs)"
  by (induction xs) auto

text \<open>A \<^verbatim>\<open>Set\<close> filled from a list holds its elements in the order of their first occurrence.\<close>

lemma fold_set_add_first_occurrences:
  "distinct s \<Longrightarrow> fold set_add ys s = rev (remdups (rev (s @ ys)))"
proof (induction ys arbitrary: s)
  case Nil
  then show ?case by (simp add: distinct_remdups_id)
next
  case (Cons y ys)
  show ?case
  proof (cases "y \<in> set s")
    case True
    then have "remdups (rev ys @ y # rev s) = remdups (rev ys @ rev s)"
      by (intro remdups_skip) simp
    with True Cons show ?thesis by (simp add: set_add_def)
  next
    case False
    then have "distinct (s @ [y])" using Cons.prems by simp
    from Cons.IH[OF this] False show ?thesis by (simp add: set_add_def)
  qed
qed

lemma decode_failure_rejected:
  "isl (decode_share rt (trim s)) \<Longrightarrow> accepted_one rt (InStr s) = None"
  by (auto simp: accepted_one_def isl_def split: sum.splits json.splits)

lemma js_ge_not_lt: "js_ge rt n v = Inr True \<Longrightarrow> js_lt rt n v = Inr False"
proof -
  assume a: "js_ge rt n v = Inr True"
  then obtain x where x: "js_to_number rt v = Inr x" "ge_num n x"
    by (auto simp: js_ge_def split: sum.splits)
  then have "\<not> lt_num n x" by (cases x) auto
  with x show ?thesis by (simp add: js_lt_def)
qed

lemma validate_run:
  "validateShareCollection rt xs = Inr r \<Longrightarrow>
   \<exists>st. forEach rt init_locals 0 xs = Inr st \<and> finish rt st = Inr r"
  by (auto simp: validateShareCollection_def split: sum.splits)

lemma run_validShareData:
  "forEach rt init_locals 0 xs = Inr st \<Longrightarrow> validShareData st = accepted rt xs"
  using forEach_validShareData[of rt init_locals 0 xs st]
  by (simp add: init_locals_def accepted_def)

lemma run_validCount:
  "forEach rt init_locals 0 xs = Inr st \<Longrightarrow> validCount st = length (accepted rt xs)"
  using forEach_validCount[of rt init_locals 0 xs st]
  by (simp add: init_locals_def accepted_def)

lemma run_shareIndices:
  "forEach rt init_locals 0 xs = Inr st \<Longrightarrow>
   shareIndices st = fold set_add (map index (accepted rt xs)) []"
  using forEach_shareIndices[of rt init_locals 0 xs st]
  by (simp add: init_locals_def accepted_def)

lemma run_thresholdCandidates:
  "forEach rt init_locals 0 xs = Inr st \<Longrightarrow>
   thresholdCandidates st = fold set_add (map threshold (accepted rt xs)) []"
  using forEach_thresholdCandidates[of rt init_locals 0 xs st]
  by (simp add: init_locals_def accepted_def)

lemma run_errors:
  "forEach rt init_locals 0 xs = Inr st \<Longrightarrow>
   set (errors st) = {InvalidShardFormat (j + 1) | j. j < length xs \<and> accepted_one rt (xs ! j) = None}"
  using forEach_errors[of rt init_locals 0 xs st] by (simp add: init_locals_def)

lemma run_finalThreshold:
  assumes "forEach rt init_locals 0 xs = Inr st"
  shows "finalThreshold rt st =
           Inr (case accepted rt xs of [] \<Rightarrow> JNum (Fin 3) | first # _ \<Rightarrow> threshold first)"
proof (cases "accepted rt xs")
  case Nil
  then show ?thesis
    using run_validShareData[OF assms] run_thresholdCandidates[OF assms]
    by (simp add: finalThreshold_def)
next
  case (Cons first rest)
  then have "valid_fields first"
    using accepted_valid[of first rt xs] by simp
  then have "truthy (threshold first)" by (simp add: valid_fields_def)
  with Cons show ?thesis
    using run_validShareData[OF assms] by (simp add: finalThreshold_def)
qed

lemma checkCount_set:
  "checkCount rt st thr = Inr errors1 \<Longrightarrow>
   set errors1 =
     set (errors st)
     \<union> (if validCount st = 0 then {NoValidShards}
        else if js_lt rt (validCount st) thr = Inr True
        then {InsufficientShards thr (validCount st)} else {})"
  by (auto simp: checkCount_def split: if_splits sum.splits)

lemma finish_fields:
  assumes "finish rt st = Inr r" and "finalThreshold rt st = Inr thr"
  shows "res_validCount r = validCount st"
    and "res_threshold r = thr"
    and "res_shareIndices r = shareIndices st"
    and "set (res_errors r) =
           set (errors st)
           \<union> (if validCount st = 0 then {NoValidShards}
              else if js_lt rt (validCount st) thr = Inr True
              then {InsufficientShards thr (validCount st)} else {})
           \<union> (if length (shareIndices st) \<noteq> validCount st then {DuplicateIndices} else {})"
    and "isValid r \<longleftrightarrow> res_errors r = [] \<and> js_ge rt (validCount st) thr = Inr True"
proof -
  from assms obtain errors1 where e1: "checkCount rt st thr = Inr errors1"
    by (auto simp: finish_def split: sum.splits)
  let ?errors2 = "if length (shareIndices st) \<noteq> validCount st
                  then errors1 @ [DuplicateIndices] else errors1"
  from assms e1 obtain valid where
    v: "(if ?errors2 = [] then js_ge rt (validCount st) thr else Inr False) = Inr valid"
    and r: "r = \<lparr> isValid = valid, res_validCount = validCount st, res_threshold = thr,
                  res_errors = ?errors2, res_shareIndices = shareIndices st \<rparr>"
    by (auto simp: finish_def Let_def split: sum.splits)
  show "res_validCount r = validCount st" by (simp add: r)
  show "res_threshold r = thr" by (simp add: r)
  show "res_shareIndices r = shareIndices st" by (simp add: r)
  show "set (res_errors r) =
           set (errors st)
           \<union> (if validCount st = 0 then {NoValidShards}
              else if js_lt rt (validCount st) thr = Inr True
              then {InsufficientShards thr (validCount st)} else {})
           \<union> (if length (shareIndices st) \<noteq> validCount st then {DuplicateIndices} else {})"
    using checkCount_set[OF e1] by (simp add: r)
  show "isValid r \<longleftrightarrow> res_errors r = [] \<and> js_ge rt (validCount st) thr = Inr True"
    using v by (auto simp: r split: if_splits)
qed

lemma indices_length_distinct:
  "length (fold set_add (map index ss) []) = length ss \<longleftrightarrow> distinct (map index ss)"
proof -
  have "length (fold set_add (map index ss) []) = card (set (map index ss))"
    by (rule length_fold_set_add)
  moreover have "card (set (map index ss)) = length (map index ss) \<longleftrightarrow> distinct (map index ss)"
    using card_distinct[of "map index ss"] distinct_card[of "map index ss"] by blast
  ultimately show ?thesis by simp
qed

text \<open>
  When \<^verbatim>\<open>validateShareCollection\<close> returns: always when no share is accepted, and
  otherwise when the threshold of the first accepted share converts to a number and to a
  string without throwing. A string whose decoding throws is then reported with its line
  number.
\<close>

lemma finish_returns:
  assumes "finalThreshold rt st = Inr thr"
      and "validCount st = 0 \<or> (\<not> isl (js_to_number rt thr) \<and> \<not> isl (js_to_string rt thr))"
  shows "\<exists>r. finish rt st = Inr r"
proof -
  have c: "\<exists>errors1. checkCount rt st thr = Inr errors1"
    using assms(2) by (auto simp: checkCount_def js_lt_def isl_def split: sum.splits)
  then obtain errors1 where e1: "checkCount rt st thr = Inr errors1" by blast
  have z: "errors1 \<noteq> []" if "validCount st = 0"
    using e1 that by (auto simp: checkCount_def)
  let ?errors2 = "if length (shareIndices st) \<noteq> validCount st
                  then errors1 @ [DuplicateIndices] else errors1"
  have "\<exists>valid. (if ?errors2 = [] then js_ge rt (validCount st) thr else Inr False) = Inr valid"
    using assms(2) z by (auto simp: js_ge_def isl_def split: sum.splits)
  then show ?thesis
    using assms(1) e1 by (auto simp: finish_def Let_def split: sum.splits)
qed

lemma counting_branch_unreachable:
  assumes "forEach rt init_locals 0 xs = Inr st"
  shows "(case validShareData st of [] \<Rightarrow> False | first # _ \<Rightarrow> truthy (threshold first))
         \<or> thresholdCandidates st = []"
proof (cases "accepted rt xs")
  case Nil
  then show ?thesis
    using run_thresholdCandidates[OF assms] by simp
next
  case (Cons first rest)
  then have "valid_fields first"
    using accepted_valid[of first rt xs] by simp
  then show ?thesis
    using Cons run_validShareData[OF assms] by (simp add: valid_fields_def)
qed

text \<open>An element that does not pass the test is reported with its line number.\<close>

lemma rejected_element_reported:
  assumes "validateShareCollection rt xs = Inr r"
      and "i < length xs"
      and "accepted_one rt (xs ! i) = None"
  shows "InvalidShardFormat (i + 1) \<in> set (res_errors r)"
proof -
  obtain st where st: "forEach rt init_locals 0 xs = Inr st" and r: "finish rt st = Inr r"
    using validate_run[OF assms(1)] by blast
  have "InvalidShardFormat (i + 1) \<in> set (errors st)"
    using assms(2,3) run_errors[OF st] by blast
  then show ?thesis
    by (simp add: finish_fields(4)[OF r run_finalThreshold[OF st]])
qed

lemma decode_failure_reported:
  assumes "validateShareCollection rt xs = Inr r"
      and "i < length xs"
      and "xs ! i = InStr s"
      and "isl (decode_share rt (trim s))"
  shows "InvalidShardFormat (i + 1) \<in> set (res_errors r)"
proof -
  obtain st where st: "forEach rt init_locals 0 xs = Inr st" and r: "finish rt st = Inr r"
    using validate_run[OF assms(1)] by blast
  have "accepted_one rt (xs ! i) = None"
    using assms(3,4) decode_failure_rejected[of rt s] by simp
  then have "InvalidShardFormat (i + 1) \<in> set (errors st)"
    using assms(2) run_errors[OF st] by blast
  then show ?thesis
    by (simp add: finish_fields(4)[OF r run_finalThreshold[OF st]])
qed

lemma broken_input_result:
  "validateShareCollection sample_runtime broken_input =
     Inr \<lparr> isValid = False, res_validCount = 0, res_threshold = JNum (Fin 3),
           res_errors = [InvalidShardFormat 1, InvalidShardFormat 2, InvalidShardFormat 3,
                         NoValidShards],
           res_shareIndices = [] \<rparr>"
  by code_simp

lemma validateShareCollection_returns:
  assumes "case accepted rt xs of
             [] \<Rightarrow> True
           | first # _ \<Rightarrow> \<not> isl (js_to_number rt (threshold first))
                          \<and> \<not> isl (js_to_string rt (threshold first))"
  shows "\<exists>r. validateShareCollection rt xs = Inr r"
proof -
  obtain st where st: "forEach rt init_locals 0 xs = Inr st"
    using forEach_total[of rt init_locals 0 xs] by blast
  let ?thr = "case accepted rt xs of [] \<Rightarrow> JNum (Fin 3) | first # _ \<Rightarrow> threshold first"
  have t: "finalThreshold rt st = Inr ?thr" by (rule run_finalThreshold[OF st])
  have "validCount st = 0 \<or> (\<not> isl (js_to_number rt ?thr) \<and> \<not> isl (js_to_string rt ?thr))"
    using assms run_validCount[OF st] by (cases "accepted rt xs") auto
  from finish_returns[OF t this] st show ?thesis
    by (simp add: validateShareCollection_def)
qed

text \<open>
  The branch of lines 133 to 146 in isolation: the candidates are the members of a
  \<^verbatim>\<open>Set\<close>, so each is counted once, and when their keys differ the first candidate is
  returned.
\<close>

lemma countCandidates_lookup:
  "map (js_to_string rt) ts = map Inr keys \<Longrightarrow>
   countCandidates rt m ts = Inr m' \<Longrightarrow>
   m' k = (if k \<in> set keys
           then Some ((case m k of None \<Rightarrow> 0 | Some c \<Rightarrow> c) + count_list keys k)
           else m k)"
proof (induction ts arbitrary: m keys)
  case Nil
  then show ?case by simp
next
  case (Cons t ts)
  from Cons.prems(1) obtain key rest where
    k: "keys = key # rest" "js_to_string rt t = Inr key" "map (js_to_string rt) ts = map Inr rest"
    by (cases keys) auto
  let ?m1 = "m(key \<mapsto> (case m key of None \<Rightarrow> 0 | Some c \<Rightarrow> c) + 1)"
  have "countCandidates rt ?m1 ts = Inr m'"
    using Cons.prems(2) k(2) by simp
  from Cons.IH[OF k(3) this] show ?case
    by (auto simp: k(1) split: option.splits)
qed

lemma countCandidates_returns:
  "map (js_to_string rt) ts = map Inr keys \<Longrightarrow> \<exists>m'. countCandidates rt m ts = Inr m'"
proof (induction ts arbitrary: m keys)
  case Nil
  then show ?case by simp
next
  case (Cons t ts)
  from Cons.prems obtain key rest where
    k: "keys = key # rest" "js_to_string rt t = Inr key" "map (js_to_string rt) ts = map Inr rest"
    by (cases keys) auto
  from Cons.IH[OF k(3)] k(2) show ?case by simp
qed

lemma count_list_distinct: "distinct ys \<Longrightarrow> y \<in> set ys \<Longrightarrow> count_list ys y = 1"
  by (induction ys) auto

lemma pickMostFrequent_unchanged:
  "map (js_to_string rt) ts = map Inr keys \<Longrightarrow>
   \<forall>k\<in>set keys. \<forall>c. m k = Some c \<longrightarrow> c \<le> maxCount \<Longrightarrow>
   pickMostFrequent rt m maxCount thr ts = Inr thr"
proof (induction ts arbitrary: keys)
  case Nil
  then show ?case by simp
next
  case (Cons t ts)
  from Cons.prems(1) obtain key rest where
    k: "keys = key # rest" "js_to_string rt t = Inr key" "map (js_to_string rt) ts = map Inr rest"
    by (cases keys) auto
  have "pickMostFrequent rt m maxCount thr ts = Inr thr"
    using Cons.IH[OF k(3)] Cons.prems(2) k(1) by simp
  then show ?case
    using Cons.prems(2) k(1,2) by (auto split: option.splits)
qed

lemma counting_branch_first_candidate:
  assumes "map (js_to_string rt) (c # cs) = map Inr keys"
      and "distinct keys"
  shows "\<exists>m. countCandidates rt Map.empty (c # cs) = Inr m
           \<and> pickMostFrequent rt m 0 (JNum (Fin 0)) (c # cs) = Inr c"
proof -
  obtain m where m: "countCandidates rt Map.empty (c # cs) = Inr m"
    using countCandidates_returns[OF assms(1)] by blast
  from assms(1) obtain key rest where
    k: "keys = key # rest" "js_to_string rt c = Inr key" "map (js_to_string rt) cs = map Inr rest"
    by (cases keys) auto
  have one: "m k = Some 1" if "k \<in> set keys" for k
    using countCandidates_lookup[OF assms(1) m, of k] count_list_distinct[OF assms(2) that] that
    by simp
  have "pickMostFrequent rt m 0 (JNum (Fin 0)) (c # cs) = pickMostFrequent rt m 1 c cs"
    using one[of key] k by simp
  also have "\<dots> = Inr c"
    using one k(1) by (intro pickMostFrequent_unchanged[OF k(3)]) auto
  finally show ?thesis using m by blast
qed

lemma tryShare_no_result:
  "\<not> starts_with s PGP_MARKER \<Longrightarrow> \<not> decodes_valid rt s \<Longrightarrow> tryShare rt s \<noteq> Inr (Some r)"
  by (auto simp: tryShare_def decodes_valid_def split: sum.splits json.splits)

lemma scan_lines_None:
  "\<forall>line\<in>set lines. \<not> starts_with line PGP_MARKER \<and> \<not> decodes_valid rt line \<Longrightarrow>
   scan_lines rt lines = None"
proof (induction lines)
  case Nil
  then show ?case by simp
next
  case (Cons line lines)
  then have "tryShare rt line \<noteq> Inr (Some r)" for r
    using tryShare_no_result[of line rt r] by simp
  with Cons show ?case
    by (auto split: sum.splits option.splits)
qed

lemma trunc_of_nat: "trunc (of_nat n) = int n"
  by (simp add: trunc_def)

lemma slice0_nat:
  "n \<le> length xs \<Longrightarrow> slice0 rt xs (JNum (Fin (of_nat n))) = Inr (take n xs)"
  by (simp add: slice0_def trunc_of_nat Let_def min_def)

lemma js_lt_nat: "js_lt rt m (JNum (Fin (of_nat n))) = Inr (m < n)"
  by (simp add: js_lt_def)

lemma recoverMnemonic_calls:
  "fst (recoverMnemonic rt combine collected) =
     (case selectPayloads rt collected of
        Inl err \<Rightarrow> []
      | Inr strs \<Rightarrow> fst (combineWithFallback combine strs))"
  by (simp add: recoverMnemonic_def split: sum.splits prod.splits)

lemma combineWithFallback_calls:
  "fst (combineWithFallback combine strs) =
     (if isl (combine (StringShares strs))
      then [StringShares strs, ByteShares (map toBytes strs)]
      else [StringShares strs])"
  by (simp add: combineWithFallback_def isl_def split: sum.splits)

lemma selectPayloads_nat:
  assumes "collected = first # rest"
      and "threshold first = JNum (Fin (of_nat n))"
      and "n \<le> length collected"
      and "payloadStrings rt (take n collected) = Inr strs"
  shows "selectPayloads rt collected = Inr strs"
  using assms by (simp add: selectPayloads_def js_lt_nat slice0_nat)

section \<open>The collection validator\<close>

text \<open>
  C1. The specification says that \<^verbatim>\<open>validCount\<close> counts each share index once. The
  code increments \<^verbatim>\<open>validCount\<close> for every element that passes its validity test,
  and detects duplicates afterwards by comparing the count with the size of the index
  set. What holds for every input on which the function returns: \<^verbatim>\<open>validCount\<close> is
  the number of elements that pass the test (an object with truthy threshold, defined
  index and truthy data; a non-empty string that decodes to a share with truthy
  threshold, truthy index and truthy data), shares with a repeated index included;
  \<^verbatim>\<open>shareIndices\<close> lists the indices of the accepted shares, each once, in the order
  of their first occurrence; and the duplicate error is recorded exactly when two
  accepted shares carry the same index, where an index that is an object decoded from one
  line is never the same as one decoded from another line.
\<close>

theorem validCount_counts_every_valid_share:
  assumes "validateShareCollection rt xs = Inr r"
  shows "res_validCount r = length (filter (\<lambda>x. accepted_one rt x \<noteq> None) xs)
       \<and> res_validCount r = length (accepted rt xs)
       \<and> res_shareIndices r = rev (remdups (rev (map index (accepted rt xs))))
       \<and> distinct (res_shareIndices r)
       \<and> set (res_shareIndices r) = set (map index (accepted rt xs))
       \<and> length (res_shareIndices r) = card (set (map index (accepted rt xs)))
       \<and> (DuplicateIndices \<in> set (res_errors r) \<longleftrightarrow> \<not> distinct (map index (accepted rt xs)))"
proof -
  obtain st where st: "forEach rt init_locals 0 xs = Inr st" and r: "finish rt st = Inr r"
    using validate_run[OF assms] by blast
  note f = finish_fields[OF r run_finalThreshold[OF st]]
  have c: "validCount st = length (accepted rt xs)" by (rule run_validCount[OF st])
  have n: "length (accepted rt xs) = length (filter (\<lambda>x. accepted_one rt x \<noteq> None) xs)"
    by (simp add: accepted_def length_accepted_from)
  have i: "shareIndices st = fold set_add (map index (accepted rt xs)) []"
    by (rule run_shareIndices[OF st])
  have o: "shareIndices st = rev (remdups (rev (map index (accepted rt xs))))"
    using fold_set_add_first_occurrences[of "[]" "map index (accepted rt xs)"]
    by (simp add: i)
  have d: "distinct (shareIndices st)"
    by (simp add: i distinct_fold_set_add)
  have s: "set (shareIndices st) = set (map index (accepted rt xs))"
    by (simp add: i set_fold_set_add)
  have e: "DuplicateIndices \<notin> set (errors st)"
    using run_errors[OF st] by auto
  have "DuplicateIndices \<in> set (res_errors r) \<longleftrightarrow> length (shareIndices st) \<noteq> validCount st"
    using e by (simp add: f(4))
  also have "\<dots> \<longleftrightarrow> \<not> distinct (map index (accepted rt xs))"
    using indices_length_distinct[of "accepted rt xs"] by (simp add: c i)
  finally have u: "DuplicateIndices \<in> set (res_errors r)
                   \<longleftrightarrow> \<not> distinct (map index (accepted rt xs))" .
  have l: "length (res_shareIndices r) = card (set (map index (accepted rt xs)))"
    by (simp add: f(3) i length_fold_set_add)
  show ?thesis
    using c n o d s u l by (simp add: f(1) f(3))
qed

text \<open>
  The same line pasted twice, with an index that is an array: two shares are counted, the
  two arrays are different objects, and no duplicate is recorded.
\<close>

theorem validCount_counts_every_valid_share_witness:
  "validateShareCollection array_index_runtime pasted_twice =
     Inr \<lparr> isValid = True, res_validCount = 2, res_threshold = JNum (Fin 2),
           res_errors = [],
           res_shareIndices = [JRef (Fresh 0 0), JRef (Fresh 1 0)] \<rparr>
   \<and> length (filter (\<lambda>x. accepted_one array_index_runtime x \<noteq> None) pasted_twice) = 2
   \<and> map index (accepted array_index_runtime pasted_twice)
       = [JRef (Fresh 0 0), JRef (Fresh 1 0)]"
proof -
  have h: "validateShareCollection array_index_runtime pasted_twice =
     Inr \<lparr> isValid = True, res_validCount = 2, res_threshold = JNum (Fin 2),
           res_errors = [],
           res_shareIndices = [JRef (Fresh 0 0), JRef (Fresh 1 0)] \<rparr>"
    by code_simp
  have a: "map index (accepted array_index_runtime pasted_twice)
             = [JRef (Fresh 0 0), JRef (Fresh 1 0)]"
    by code_simp
  show ?thesis
    using h a validCount_counts_every_valid_share[OF h] by simp
qed

text \<open>
  Two shares with index 1: both are counted, so \<^verbatim>\<open>validCount\<close> is 2 where the
  specification's sentence gives 1.
\<close>

theorem validCount_dedup_counterexample:
  "validateShareCollection sample_runtime duplicate_input =
     Inr \<lparr> isValid = False, res_validCount = 2, res_threshold = JNum (Fin 2),
           res_errors = [DuplicateIndices], res_shareIndices = [JNum (Fin 1)] \<rparr>
   \<and> map index (accepted sample_runtime duplicate_input) = [JNum (Fin 1), JNum (Fin 1)]"
  by code_simp




text \<open>
  C5. The specification says that \<^verbatim>\<open>validCount \<ge> threshold\<close> and the absence of
  duplicates give \<^verbatim>\<open>isValid = true\<close>, with no further condition. The code also
  requires the error list to be empty, and every element that does not parse adds an
  error. What holds: when \<^verbatim>\<open>validCount \<ge> threshold\<close>, no two accepted shares have the
  same index, and every element of the list is accepted, \<^verbatim>\<open>isValid\<close> is true.
\<close>

theorem valid_when_all_parse:
  assumes "validateShareCollection rt xs = Inr r"
      and "js_ge rt (res_validCount r) (res_threshold r) = Inr True"
      and "distinct (map index (accepted rt xs))"
      and "\<forall>x\<in>set xs. accepted_one rt x \<noteq> None"
  shows "isValid r"
proof -
  obtain st where st: "forEach rt init_locals 0 xs = Inr st" and r: "finish rt st = Inr r"
    using validate_run[OF assms(1)] by blast
  note f = finish_fields[OF r run_finalThreshold[OF st]]
  have ge: "js_ge rt (validCount st) (res_threshold r) = Inr True"
    using assms(2) by (simp add: f(1))
  have "accepted_one rt (xs ! j) \<noteq> None" if "j < length xs" for j
    using assms(4) that nth_mem[of j xs] by blast
  then have "{InvalidShardFormat (j + 1) | j. j < length xs \<and> accepted_one rt (xs ! j) = None} = {}"
    by simp
  then have "set (errors st) = {}"
    by (simp only: run_errors[OF st])
  moreover have "validCount st \<noteq> 0"
  proof
    assume z: "validCount st = 0"
    then have "accepted rt xs = []" using run_validCount[OF st] by simp
    then have "res_threshold r = JNum (Fin 3)"
      by (simp add: f(2))
    with ge z show False by (simp add: js_ge_def)
  qed
  moreover have "js_lt rt (validCount st) (res_threshold r) \<noteq> Inr True"
    using js_ge_not_lt[OF ge] by simp
  moreover have "length (shareIndices st) = validCount st"
    using indices_length_distinct[of "accepted rt xs"] assms(3)
    by (simp add: run_shareIndices[OF st] run_validCount[OF st])
  ultimately have "set (res_errors r) = {}"
    by (simp add: f(4) f(2)[symmetric])
  then have "res_errors r = []" by simp
  with ge show ?thesis by (simp add: f(5) f(2)[symmetric])
qed

theorem valid_when_all_parse_witness:
  "validateShareCollection sample_runtime complete_input =
     Inr \<lparr> isValid = True, res_validCount = 2, res_threshold = JNum (Fin 2),
           res_errors = [], res_shareIndices = [JNum (Fin 1), JNum (Fin 2)] \<rparr>
   \<and> js_ge sample_runtime 2 (JNum (Fin 2)) = Inr True
   \<and> distinct (map index (accepted sample_runtime complete_input))
   \<and> list_all (\<lambda>x. accepted_one sample_runtime x \<noteq> None) complete_input"
proof -
  have h: "validateShareCollection sample_runtime complete_input =
     Inr \<lparr> isValid = True, res_validCount = 2, res_threshold = JNum (Fin 2),
           res_errors = [], res_shareIndices = [JNum (Fin 1), JNum (Fin 2)] \<rparr>"
    by code_simp
  have g: "js_ge sample_runtime 2 (JNum (Fin 2)) = Inr True"
    by (simp add: js_ge_def)
  have d: "distinct (map index (accepted sample_runtime complete_input))"
    by code_simp
  have l: "list_all (\<lambda>x. accepted_one sample_runtime x \<noteq> None) complete_input"
    by code_simp
  then have a: "\<forall>x\<in>set complete_input. accepted_one sample_runtime x \<noteq> None"
    by (simp only: list_all_iff)
  show ?thesis
    using h g d l valid_when_all_parse[OF h _ d a] by simp
qed

text \<open>
  One valid share with threshold 1 and one line that is not base64:
  \<^verbatim>\<open>validCount\<close> is 1, there is no duplicate, and \<^verbatim>\<open>isValid\<close> is false.
\<close>

theorem valid_despite_bad_line_counterexample:
  "validateShareCollection sample_runtime mixed_input =
     Inr \<lparr> isValid = False, res_validCount = 1, res_threshold = JNum (Fin 1),
           res_errors = [InvalidShardFormat 2], res_shareIndices = [JNum (Fin 1)] \<rparr>
   \<and> js_ge sample_runtime 1 (JNum (Fin 1)) = Inr True
   \<and> distinct (map index (accepted sample_runtime mixed_input))"
  by code_simp

text \<open>
  C8. The threshold that \<^verbatim>\<open>validateShareCollection\<close> returns is the threshold of the
  first accepted share when there is one, and 3 when there is none. Every accepted share
  has a truthy threshold, which is why the branch that counts the candidates is never
  taken (\<open>counting_branch_unreachable\<close>).
\<close>

theorem threshold_from_first_valid:
  "validateShareCollection rt xs = Inr r \<Longrightarrow>
   res_threshold r = (case accepted rt xs of [] \<Rightarrow> JNum (Fin 3) | first # _ \<Rightarrow> threshold first)
   \<and> list_all (\<lambda>sd. truthy (threshold sd)) (accepted rt xs)"
proof -
  assume "validateShareCollection rt xs = Inr r"
  then obtain st where st: "forEach rt init_locals 0 xs = Inr st" and r: "finish rt st = Inr r"
    using validate_run by blast
  have "res_threshold r =
          (case accepted rt xs of [] \<Rightarrow> JNum (Fin 3) | first # _ \<Rightarrow> threshold first)"
    by (rule finish_fields(2)[OF r run_finalThreshold[OF st]])
  moreover have "list_all (\<lambda>sd. truthy (threshold sd)) (accepted rt xs)"
    using accepted_valid[of _ rt xs] by (simp add: list_all_iff valid_fields_def)
  ultimately show ?thesis by simp
qed

text \<open>
  A first element without a threshold, then thresholds 2, 3 and 3: the threshold returned
  is 2, that of the first accepted share.
\<close>

theorem threshold_from_first_valid_witness:
  "validateShareCollection sample_runtime majority_input =
     Inr \<lparr> isValid = False, res_validCount = 3, res_threshold = JNum (Fin 2),
           res_errors = [InvalidShardFormat 1],
           res_shareIndices = [JNum (Fin 2), JNum (Fin 3), JNum (Fin 4)] \<rparr>
   \<and> accepted sample_runtime majority_input
       = [mk_share 2 2 ''QQ=='', mk_share 3 3 ''Qg=='', mk_share 3 4 ''Qw=='']
   \<and> threshold (mk_share 2 2 ''QQ=='') = JNum (Fin 2)"
proof -
  have h: "validateShareCollection sample_runtime majority_input =
     Inr \<lparr> isValid = False, res_validCount = 3, res_threshold = JNum (Fin 2),
           res_errors = [InvalidShardFormat 1],
           res_shareIndices = [JNum (Fin 2), JNum (Fin 3), JNum (Fin 4)] \<rparr>"
    by code_simp
  have a: "accepted sample_runtime majority_input
             = [mk_share 2 2 ''QQ=='', mk_share 3 3 ''Qg=='', mk_share 3 4 ''Qw=='']"
    by code_simp
  show ?thesis
    using h a threshold_from_first_valid[OF h] by (simp add: mk_share_def)
qed

text \<open>
  C10. \<^verbatim>\<open>validateShareCollection\<close> catches every failure of \<^verbatim>\<open>atob\<close> and
  \<^verbatim>\<open>JSON.parse\<close>, but not the failure of the comparison of line 155: for a line
  that decodes to a share whose threshold is an object without a usable \<^verbatim>\<open>toString\<close>,
  the conversion of the threshold throws a TypeError and no result is returned. The same
  happens when the share object is handed over directly.
\<close>

theorem validateShareCollection_throws:
  "validateShareCollection crafted_runtime [InStr crafted_line] = Inl TypeError
   \<and> validateShareCollection crafted_runtime [InObj crafted_share] = Inl TypeError"
  by code_simp

section \<open>The format detector\<close>

text \<open>
  C3. When the trimmed content starts with the armor marker, \<^verbatim>\<open>parseShareContent\<close>
  returns the encrypted classification with the trimmed content, whatever the runtime's
  decoding functions do: the marker is tested before any decoding, so also a content that
  would decode as a valid share is classified as encrypted. The loop of
  \<^verbatim>\<open>recoverMnemonicWithShares\<close> classifies the trimmed string in the same way.
\<close>

theorem armor_marker_first:
  "starts_with (trim content) PGP_MARKER \<Longrightarrow>
   parseShareContent rt content = Encrypted (trim content)
   \<and> classifyString rt (trim content) = Some (Encrypted (trim content))"
  by (simp add: parseShareContent_def parseShareContent_body_def tryShare_def
        classifyString_def classifyString_body_def)

theorem armor_marker_first_witness:
  "starts_with (trim armored_content) PGP_MARKER
   \<and> decodes_valid accepting_runtime (trim armored_content)
   \<and> parseShareContent accepting_runtime armored_content = Encrypted (trim armored_content)
   \<and> classifyString accepting_runtime (trim armored_content)
       = Some (Encrypted (trim armored_content))"
proof -
  have h: "starts_with (trim armored_content) PGP_MARKER" by code_simp
  have d: "decodes_valid accepting_runtime (trim armored_content)" by code_simp
  show ?thesis
    using h d armor_marker_first[OF h, of accepting_runtime] by simp
qed

text \<open>
  C9. As stated, the content of the fallback value is the trimmed input whenever the
  trimmed content does not start with the marker and no line decodes as a valid share.
  The loop over the lines also tests each line for the marker and returns that line
  alone. What holds: when neither the trimmed content nor any of its
  non-empty trimmed lines starts with the marker or decodes as a valid share,
  \<^verbatim>\<open>parseShareContent\<close> returns the encrypted value holding the trimmed content. Its
  result is always an encrypted value or a share, never \<^verbatim>\<open>null\<close>.
\<close>

theorem fallback_is_encrypted:
  assumes "\<not> starts_with (trim content) PGP_MARKER"
      and "\<not> decodes_valid rt (trim content)"
      and "\<forall>line\<in>set (content_lines content).
             \<not> starts_with line PGP_MARKER \<and> \<not> decodes_valid rt line"
  shows "parseShareContent rt content = Encrypted (trim content)"
proof -
  have 1: "tryShare rt (trim content) \<noteq> Inr (Some r)" for r
    using assms(1,2) by (rule tryShare_no_result)
  have 2: "scan_lines rt (content_lines content) = None"
    using assms(3) by (rule scan_lines_None)
  show ?thesis
    using 1 2
    by (auto simp: parseShareContent_def parseShareContent_body_def
             split: sum.splits option.splits)
qed

theorem fallback_is_encrypted_witness:
  "\<not> starts_with (trim ''  hello, world!  '') PGP_MARKER
   \<and> \<not> decodes_valid sample_runtime (trim ''  hello, world!  '')
   \<and> list_all (\<lambda>line. \<not> starts_with line PGP_MARKER \<and> \<not> decodes_valid sample_runtime line)
        (content_lines ''  hello, world!  '')
   \<and> parseShareContent sample_runtime ''  hello, world!  '' = Encrypted ''hello, world!''"
proof -
  have a: "\<not> starts_with (trim ''  hello, world!  '') PGP_MARKER" by code_simp
  have b: "\<not> decodes_valid sample_runtime (trim ''  hello, world!  '')" by code_simp
  have l: "list_all (\<lambda>line. \<not> starts_with line PGP_MARKER \<and> \<not> decodes_valid sample_runtime line)
        (content_lines ''  hello, world!  '')"
    by code_simp
  then have c: "\<forall>line\<in>set (content_lines ''  hello, world!  '').
         \<not> starts_with line PGP_MARKER \<and> \<not> decodes_valid sample_runtime line"
    by (simp only: list_all_iff)
  have t: "trim ''  hello, world!  '' = ''hello, world!''" by code_simp
  show ?thesis
    using a b l t fallback_is_encrypted[OF a b c] by simp
qed

text \<open>
  A first line that is not a share and a second line that starts with the marker: the
  trimmed content does not start with the marker, no line decodes, and the content
  returned is the second line, not the trimmed input.
\<close>

theorem fallback_content_counterexample:
  "parseShareContent sample_runtime two_line_content = Encrypted ''-----BEGIN PGP MESSAGE-----''
   \<and> Encrypted ''-----BEGIN PGP MESSAGE-----'' \<noteq> Encrypted (trim two_line_content)
   \<and> \<not> starts_with (trim two_line_content) PGP_MARKER
   \<and> content_lines two_line_content = [''x'', ''-----BEGIN PGP MESSAGE-----'']
   \<and> \<not> decodes_valid sample_runtime ''x''
   \<and> \<not> decodes_valid sample_runtime ''-----BEGIN PGP MESSAGE-----''"
  by code_simp

section \<open>Reconstruction\<close>

text \<open>
  C2. The specification says that the combine primitive receives the first
  \<^verbatim>\<open>threshold\<close> distinct envelopes sorted by index. The code takes
  \<^verbatim>\<open>validShareData.slice(0, threshold)\<close>: it neither sorts nor removes duplicates. What
  holds, in both versions of \<^verbatim>\<open>recoverMnemonic\<close>: when the threshold of the first
  collected share is a natural number \<open>n\<close> not above the number of collected shares and
  the payloads decode, the payloads handed to the first combine call are those of the
  first \<open>n\<close> collected shares, in the order of collection.
\<close>

theorem payloads_in_collection_order:
  assumes "collected = first # rest"
      and "threshold first = JNum (Fin (of_nat n))"
      and "n \<le> length collected"
      and "payloadStrings rt (take n collected) = Inr strs"
  shows "fst (recoverMnemonic rt combine collected) \<noteq> []
       \<and> hd (fst (recoverMnemonic rt combine collected)) = StringShares strs
       \<and> fst (recoverMnemonic_bytes rt combine collected) = [ByteShares (map toBytes strs)]"
proof -
  have s: "selectPayloads rt collected = Inr strs"
    using assms by (rule selectPayloads_nat)
  have a: "fst (combineWithFallback combine strs) \<noteq> []
         \<and> hd (fst (combineWithFallback combine strs)) = StringShares strs"
    by (simp add: combineWithFallback_calls)
  have b: "fst (recoverMnemonic rt combine collected) = fst (combineWithFallback combine strs)"
    by (simp add: recoverMnemonic_calls s)
  have c: "fst (recoverMnemonic_bytes rt combine collected) = [ByteShares (map toBytes strs)]"
    by (simp add: recoverMnemonic_bytes_def s split: sum.splits)
  from a b c show ?thesis by simp
qed

theorem payloads_in_collection_order_witness:
  "unsorted_shares = mk_share 2 2 ''Qg=='' # [mk_share 2 1 ''QQ=='']
   \<and> threshold (mk_share 2 2 ''Qg=='') = JNum (Fin (of_nat 2))
   \<and> 2 \<le> length unsorted_shares
   \<and> payloadStrings sample_runtime (take 2 unsorted_shares) = Inr [''B'', ''A'']
   \<and> hd (fst (recoverMnemonic sample_runtime sample_combine unsorted_shares))
       = StringShares [''B'', ''A'']
   \<and> fst (recoverMnemonic_bytes sample_runtime sample_combine unsorted_shares)
       = [ByteShares (map toBytes [''B'', ''A''])]"
proof -
  have a: "unsorted_shares = mk_share 2 2 ''Qg=='' # [mk_share 2 1 ''QQ=='']"
    by (simp add: unsorted_shares_def)
  have b: "threshold (mk_share 2 2 ''Qg=='') = JNum (Fin (of_nat 2))"
    by (simp add: mk_share_def)
  have c: "2 \<le> length unsorted_shares"
    by (simp add: unsorted_shares_def)
  have d: "payloadStrings sample_runtime (take 2 unsorted_shares) = Inr [''B'', ''A'']"
    by code_simp
  show ?thesis
    using a b c d
      payloads_in_collection_order[OF a b c d, of sample_combine]
    by simp
qed

text \<open>
  Shares collected with index 2 before index 1: combine receives the payloads in that
  order, where the selection of the specification starts with index 1.
\<close>

theorem payloads_sorted_distinct_counterexample:
  "fst (recoverMnemonic sample_runtime sample_combine unsorted_shares)
     = [StringShares [''B'', ''A'']]
   \<and> fst (recoverMnemonic_bytes sample_runtime sample_combine unsorted_shares)
     = [ByteShares [[66], [65]]]
   \<and> payloadStrings sample_runtime (spec_selection 2 unsorted_shares) = Inr [''A'', ''B'']"
  by code_simp

text \<open>
  C7. The specification says that the byte-encoded call is made when the string-encoded
  call raises a type error. The \<^verbatim>\<open>catch\<close> block of the code does not look at the
  error. What holds for the version with the fallback: when combine is called at all, it
  is called first with the string payloads of the selected shares, and it is called a
  second time, with the bytes of the same payloads, exactly when the first call throws,
  whatever the error.
\<close>

theorem fallback_on_any_error:
  assumes "fst (recoverMnemonic rt combine collected) = calls"
      and "calls \<noteq> []"
  shows "\<exists>strs.
           selectPayloads rt collected = Inr strs
         \<and> calls = (if isl (combine (StringShares strs))
                    then [StringShares strs, ByteShares (map toBytes strs)]
                    else [StringShares strs])"
proof -
  from assms obtain strs where
    "selectPayloads rt collected = Inr strs"
    "calls = fst (combineWithFallback combine strs)"
    unfolding recoverMnemonic_calls
    by (auto split: sum.splits)
  then show ?thesis
    unfolding combineWithFallback_calls by blast
qed

theorem fallback_on_any_error_witness:
  "fst (recoverMnemonic sample_runtime range_error_combine unsorted_shares)
     = [StringShares [''B'', ''A''], ByteShares [[66], [65]]]
   \<and> [StringShares [''B'', ''A''], ByteShares [[66], [65]]] \<noteq> []
   \<and> (\<exists>strs.
           selectPayloads sample_runtime unsorted_shares = Inr strs
         \<and> [StringShares [''B'', ''A''], ByteShares [[66], [65]]]
             = (if isl (range_error_combine (StringShares strs))
                then [StringShares strs, ByteShares (map toBytes strs)]
                else [StringShares strs]))"
proof -
  have h: "fst (recoverMnemonic sample_runtime range_error_combine unsorted_shares)
     = [StringShares [''B'', ''A''], ByteShares [[66], [65]]]"
    by code_simp
  have n: "[StringShares [''B'', ''A''], ByteShares [[66], [65]]] \<noteq> []"
    by simp
  show ?thesis
    using h n fallback_on_any_error[OF h n] by simp
qed

text \<open>
  A combine that throws a range error on strings: the byte-encoded call is made although
  the error is not a type error.
\<close>

theorem fallback_only_type_error_counterexample:
  "range_error_combine (StringShares [''B'', ''A'']) = Inl RangeError
   \<and> RangeError \<noteq> TypeError
   \<and> recoverMnemonic sample_runtime range_error_combine unsorted_shares =
      ([StringShares [''B'', ''A''], ByteShares [[66], [65]]], Inr ''secret'')"
  by code_simp

end
